theory Spec2Isabelle
  imports Complex_Main "HOL-Library.Sublist" "HOL-Library.AList"
begin

section \<open>Python values, dictionaries and exceptions\<close>

text \<open>
  The repository is dynamically typed Python. Values that travel through dictionaries
  (metadata values, JSON bodies, tool arguments) are modelled by \<open>pyval\<close>; a Python
  \<open>dict\<close> with string keys is an association list read with \<open>map_of\<close>
  (\<open>d.get(k)\<close>) and written with \<open>AList.update\<close> (\<open>d[k] = v\<close>).
\<close>

datatype pyval =
    PStr string
  | PInt int
  | PFloat real
  | PBool bool
  | PNone
  | PList "pyval list"
  | PDict "(string \<times> pyval) list"

type_synonym pydict = "(string \<times> pyval) list"

text \<open>
  The exception classes the code distinguishes. \<open>except requests.exceptions.RequestException\<close>
  also catches its subclasses (connection errors and timeouts); \<open>except Exception\<close>
  catches every class below. The string is \<open>str(e)\<close>.
\<close>

datatype exn_class =
    RequestException
  | RequestsConnectionError
  | RequestsTimeout
  | IndexError
  | KeyError
  | ValueError
  | TypeError
  | AttributeError
  | OtherException

datatype exn = Exn exn_class string

fun exn_cls :: "exn \<Rightarrow> exn_class" where
  "exn_cls (Exn c m) = c"

fun str_exn :: "exn \<Rightarrow> string" where
  "str_exn (Exn c m) = m"

fun isinstance_RequestException :: "exn \<Rightarrow> bool" where
  "isinstance_RequestException (Exn c m) =
     (c = RequestException \<or> c = RequestsConnectionError \<or> c = RequestsTimeout)"

text \<open>\<open>sep.join(xs)\<close>.\<close>

fun join :: "string \<Rightarrow> string list \<Rightarrow> string" where
  "join sep [] = []"
| "join sep [x] = x"
| "join sep (x # y # ys) = x @ sep @ join sep (y # ys)"

text \<open>
  \<open>xs[k:]\<close> for a Python integer \<open>k\<close>: a negative start counts from the end and is
  clamped at the front of the list, a start beyond the end gives the empty list.
\<close>

definition py_slice_from :: "'a list \<Rightarrow> int \<Rightarrow> 'a list" where
  "py_slice_from xs k =
     (let n = int (length xs);
          start = (if k < 0 then max 0 (n + k) else min k n)
      in drop (nat start) xs)"

section \<open>The conversation loop (agent/agent.py)\<close>

subsection \<open>Model responses and what is sent to the model\<close>

record function_call =
  fc_name :: string
  fc_args :: pydict

text \<open>
  A response part carries one of several payloads. The loop reads \<open>part.function_call.name\<close>
  and \<open>part.text\<close>; both are empty on a part that carries something else.
\<close>

datatype part =
    TextPart string
  | FunctionCallPart function_call
  | OtherPart

record candidate =
  parts :: "part list"
  finish_reason :: int

text \<open>
  \<open>response.text\<close> is a property of the provider's library that may raise; its outcome is
  part of the response value.
\<close>

record response =
  candidates :: "candidate list"
  text_property :: "exn + string"

datatype content =
    UserMessage string
  | FunctionResponse string string

subsection \<open>The tool registry\<close>

text \<open>
  A tool is a callable invoked as \<open>tool_func(**args)\<close>: it may raise, and it may change
  the world outside the assistant (bookings, mail, the index), whose state has type \<open>'w\<close>.
\<close>

type_synonym 'w callable = "pydict \<Rightarrow> 'w \<Rightarrow> (exn + string) \<times> 'w"

record 'w tool_funcs =
  search_knowledge_base_fn :: "'w callable"
  create_booking_fn :: "'w callable"
  send_confirmation_email_fn :: "'w callable"
  get_booking_info_fn :: "'w callable"
  web_search_movies_fn :: "'w callable"

definition TOOL_MAP :: "'w tool_funcs \<Rightarrow> string \<rightharpoonup> 'w callable" where
  "TOOL_MAP t =
     [''search_knowledge_base'' \<mapsto> search_knowledge_base_fn t,
      ''create_booking'' \<mapsto> create_booking_fn t,
      ''send_confirmation_email'' \<mapsto> send_confirmation_email_fn t,
      ''get_booking_info'' \<mapsto> get_booking_info_fn t,
      ''web_search_movies'' \<mapsto> web_search_movies_fn t]"

text \<open>
  \<open>BookingAssistant._execute_tool\<close>. The result type keeps the possibility of an
  exception leaving the method, so that its absence is a theorem.
\<close>

definition execute_tool :: "'w tool_funcs \<Rightarrow> function_call \<Rightarrow> 'w \<Rightarrow> (exn + string) \<times> 'w" where
  "execute_tool t function_call w =
     (let tool_name = fc_name function_call;
          args = fc_args function_call
      in case TOOL_MAP t tool_name of
           None \<Rightarrow> (Inr (''Error: Unknown tool '' @ [CHR 0x27] @ tool_name @ [CHR 0x27]), w)
         | Some tool_func \<Rightarrow>
             (case tool_func args w of
                (Inr result, w') \<Rightarrow> (Inr result, w')
              | (Inl e, w') \<Rightarrow>
                  (Inr (''Error executing '' @ tool_name @ '': '' @ str_exn e), w')))"

subsection \<open>Session state\<close>

text \<open>
  \<open>send_message\<close> is the provider: its answer to a message is a function of everything
  sent on the session so far (the message itself last). \<open>chat_session\<close> is \<open>None\<close> until the
  first call and afterwards holds what has been sent.
\<close>

record 'w agent_env =
  send_message :: "content list \<Rightarrow> exn + response"
  tools :: "'w tool_funcs"

type_synonym history_entry = "string \<times> string"

record 'w assistant =
  chat_history :: "history_entry list"
  max_history :: int
  chat_session :: "content list option"
  tool_world :: 'w

definition init_assistant :: "int \<Rightarrow> 'w \<Rightarrow> 'w assistant" where
  "init_assistant m w =
     \<lparr>chat_history = [], max_history = m, chat_session = None, tool_world = w\<rparr>"

text \<open>\<open>BookingAssistant._trim_history\<close>.\<close>

definition trim_history :: "'w assistant \<Rightarrow> 'w assistant" where
  "trim_history st =
     (if int (length (chat_history st)) > max_history st * 2
      then st\<lparr>chat_history := py_slice_from (chat_history st) (- (max_history st * 2))\<rparr>
      else st)"

definition clear_history :: "'w assistant \<Rightarrow> 'w assistant" where
  "clear_history st = st\<lparr>chat_history := [], chat_session := None\<rparr>"

subsection \<open>One turn\<close>

text \<open>
  The \<open>for part in ...parts\<close> scan of \<open>chat\<close>: it stops at the first part whose function
  call has a name, and collects the non-empty texts seen before it.
\<close>

fun scan_parts :: "part list \<Rightarrow> string list \<Rightarrow> function_call option \<times> string list" where
  "scan_parts [] text_parts = (None, text_parts)"
| "scan_parts (FunctionCallPart fc # ps) text_parts =
     (if fc_name fc \<noteq> [] then (Some fc, text_parts) else scan_parts ps text_parts)"
| "scan_parts (TextPart t # ps) text_parts =
     (if t \<noteq> [] then scan_parts ps (text_parts @ [t]) else scan_parts ps text_parts)"
| "scan_parts (OtherPart # ps) text_parts = scan_parts ps text_parts"

text \<open>
  One pass of the \<open>while\<close> loop of \<open>chat\<close>, for the response at hand. \<open>sent\<close> is
  the session (what has been sent so far). The pass either leaves the loop (with the
  response to extract the reply from, or with an exception) or goes round again with the
  model's response to the tool result.
\<close>

datatype 'w cycle =
    Leave "exn + response" "content list" 'w
  | Again "content list" 'w response

definition response_cycle ::
  "'w agent_env \<Rightarrow> content list \<Rightarrow> 'w \<Rightarrow> response \<Rightarrow> 'w cycle"
where
  "response_cycle env sent w response =
     (case candidates response of
        [] \<Rightarrow> Leave (Inl (Exn IndexError ''list index out of range'')) sent w
      | c # cs \<Rightarrow>
          if parts c = [] then Leave (Inr response) sent w
          else
            (case fst (scan_parts (parts c) []) of
               None \<Rightarrow> Leave (Inr response) sent w
             | Some function_call \<Rightarrow>
                 (case execute_tool (tools env) function_call w of
                    (Inl e, w') \<Rightarrow> Leave (Inl e) sent w'
                  | (Inr tool_result, w') \<Rightarrow>
                      (let sent' = sent @ [FunctionResponse (fc_name function_call) tool_result]
                       in case send_message env sent' of
                            Inl e \<Rightarrow> Leave (Inl e) sent' w'
                          | Inr response' \<Rightarrow> Again sent' w' response'))))"

text \<open>
  The loop itself. It has no bound on the number of tool cycles, so it is a partial
  function: \<open>None\<close> means that it never leaves the loop.
\<close>

partial_function (option) chat_loop ::
  "'w agent_env \<Rightarrow> content list \<Rightarrow> 'w \<Rightarrow> response \<Rightarrow> ((exn + response) \<times> content list \<times> 'w) option"
where
  "chat_loop env sent w response =
     (case response_cycle env sent w response of
        Leave r sent' w' \<Rightarrow> Some (r, sent', w')
      | Again sent' w' response' \<Rightarrow> chat_loop env sent' w' response')"

text \<open>\<open>BookingAssistant._extract_response_text\<close>; the whole body sits in a \<open>try\<close>.\<close>

definition extract_response_text :: "response \<Rightarrow> string" where
  "extract_response_text response =
     (case text_property response of
        Inl e \<Rightarrow> ''Error processing response: '' @ str_exn e
      | Inr t \<Rightarrow>
          if t \<noteq> [] then t
          else
            (case candidates response of
               [] \<Rightarrow> ''I apologize, but I couldn'' @ [CHR 0x27] @ ''t generate a response. Please try again.''
             | candidate # cs \<Rightarrow>
                 (let text_parts = concat (map (\<lambda>p. case p of TextPart s \<Rightarrow> (if s \<noteq> [] then [s] else []) | _ \<Rightarrow> []) (parts candidate))
                  in if text_parts \<noteq> [] then join [CHR 0x0A] text_parts
                     else if finish_reason candidate = 3
                       then ''I apologize, but I can'' @ [CHR 0x27] @ ''t respond to that request due to content restrictions.''
                     else if finish_reason candidate = 12
                       then ''I apologize, but I couldn'' @ [CHR 0x27] @ ''t generate a response. Please try rephrasing your request.''
                     else ''I apologize, but I couldn'' @ [CHR 0x27] @ ''t generate a response. Please try again.'')))"

text \<open>
  The body of the \<open>try\<close> in \<open>chat\<close>: \<open>Inl\<close> is an exception raised inside it, with the
  state as it was when the exception left the body. \<open>start_chat(history=[])\<close> only builds
  the session object, an empty session here; the steps that can raise are the two calls of
  \<open>send_message\<close> and the read of \<open>response.candidates[0]\<close>.
\<close>

definition chat_body ::
  "'w agent_env \<Rightarrow> string \<Rightarrow> 'w assistant \<Rightarrow> ((exn + string) \<times> 'w assistant) option"
where
  "chat_body env user_message st =
     (let session = (case chat_session st of None \<Rightarrow> [] | Some s \<Rightarrow> s);
          sent = session @ [UserMessage user_message]
      in case send_message env sent of
           Inl e \<Rightarrow> Some (Inl e, st\<lparr>chat_session := Some sent\<rparr>)
         | Inr response \<Rightarrow>
             (case chat_loop env sent (tool_world st) response of
                None \<Rightarrow> None
              | Some (Inl e, sent', w') \<Rightarrow>
                  Some (Inl e, st\<lparr>chat_session := Some sent', tool_world := w'\<rparr>)
              | Some (Inr final, sent', w') \<Rightarrow>
                  (let assistant_message = extract_response_text final;
                       st1 = st\<lparr>chat_session := Some sent', tool_world := w'\<rparr>;
                       st2 = st1\<lparr>chat_history := chat_history st1 @ [(''user'', user_message)]\<rparr>;
                       st3 = st2\<lparr>chat_history := chat_history st2 @ [(''assistant'', assistant_message)]\<rparr>
                   in Some (Inr assistant_message, trim_history st3))))"

text \<open>The \<open>except Exception\<close> handler of \<open>chat\<close>.\<close>

definition chat_error_reply :: "exn \<Rightarrow> string" where
  "chat_error_reply e =
     (let error_str = str_exn e
      in if sublist ''finish_reason'' error_str
         then ''I apologize, but I couldn'' @ [CHR 0x27] @ ''t process that request. Please try rephrasing your message or provide the information in a different way.''
         else ''I encountered an error: '' @ error_str @ ''. Please try again or rephrase your request.'')"

text \<open>\<open>BookingAssistant.chat\<close>: the reply and the state after the call.\<close>

definition chat :: "'w agent_env \<Rightarrow> string \<Rightarrow> 'w assistant \<Rightarrow> (string \<times> 'w assistant) option" where
  "chat env user_message st =
     (case chat_body env user_message st of
        None \<Rightarrow> None
      | Some (Inl e, st') \<Rightarrow> Some (chat_error_reply e, st')
      | Some (Inr assistant_message, st') \<Rightarrow> Some (assistant_message, st'))"

section \<open>The vector store (rag_system/vector_store.py)\<close>

subsection \<open>The persisted collection\<close>

text \<open>
  Modelled from the spec: the collection behind \<open>VectorStore\<close> is a third-party
  database (chromadb) that is not part of the sources. It is modelled by the contract of
  the spec's VectorIndex: a sequence of records in insertion order; \<open>add\<close> appends;
  \<open>query\<close> returns up to \<open>n_results\<close> records by ascending distance to the query vector
  (an empty collection gives an empty result, never an error); \<open>get\<close> with a \<open>where\<close>
  clause returns the records whose metadata holds exactly that value under that key, at
  most \<open>limit\<close> of them, in insertion order. The distance is the collection's metric, a
  parameter. Failures inside the database are outside the model, and so is its own
  validation of what is written to it.
\<close>

record stored =
  rec_id :: string
  rec_embedding :: "real list"
  rec_metadata :: pydict
  rec_document :: string

definition collection_add :: "stored list \<Rightarrow> stored list \<Rightarrow> stored list" where
  "collection_add recs coll = coll @ recs"

definition collection_query ::
  "(real list \<Rightarrow> real list \<Rightarrow> real) \<Rightarrow> real list \<Rightarrow> nat \<Rightarrow> stored list
     \<Rightarrow> (string \<times> pydict \<times> real) list"
where
  "collection_query metric query_embedding n_results coll =
     take n_results
       (map (\<lambda>r. (rec_document r, rec_metadata r, metric query_embedding (rec_embedding r)))
            (sort_key (\<lambda>r. metric query_embedding (rec_embedding r)) coll))"


subsection \<open>Environment and state\<close>

text \<open>
  \<open>embed_content\<close> is the embedding provider (\<open>genai.embed_content\<close> with the fixed model
  name): its outcome for a text and a task type may depend on the requests issued before.
  \<open>uuid4\<close> is the source of identifiers, read at a counter. The state holds the
  collection, the log of the embedding requests issued, and the identifier counter.
\<close>

record rag_env =
  embed_content :: "(string \<times> string) list \<Rightarrow> string \<Rightarrow> string \<Rightarrow> exn + (string \<times> real list) list"
  uuid4 :: "nat \<Rightarrow> string"
  distance :: "real list \<Rightarrow> real list \<Rightarrow> real"

record rag_world =
  collection :: "stored list"
  embed_log :: "(string \<times> string) list"
  uuid_count :: nat

text \<open>
  The body shared by \<open>VectorStore._get_embedding\<close> and \<open>VectorStore._get_query_embedding\<close>,
  which differ in the task type only. \<open>result['embedding']\<close> is inside the \<open>try\<close>, so a
  missing key is caught as well.
\<close>

definition embed_with_fallback ::
  "rag_env \<Rightarrow> string \<Rightarrow> string \<Rightarrow> rag_world \<Rightarrow> (exn + real list) \<times> rag_world"
where
  "embed_with_fallback env task_type text w =
     (let w' = w\<lparr>embed_log := embed_log w @ [(text, task_type)]\<rparr>
      in case embed_content env (embed_log w) text task_type of
           Inl e \<Rightarrow> (Inr (replicate 768 0), w')
         | Inr result \<Rightarrow>
             (case map_of result ''embedding'' of
                None \<Rightarrow> (Inr (replicate 768 0), w')
              | Some v \<Rightarrow> (Inr v, w')))"

definition get_embedding :: "rag_env \<Rightarrow> string \<Rightarrow> rag_world \<Rightarrow> (exn + real list) \<times> rag_world" where
  "get_embedding env text w = embed_with_fallback env ''retrieval_document'' text w"

definition get_query_embedding ::
  "rag_env \<Rightarrow> string \<Rightarrow> rag_world \<Rightarrow> (exn + real list) \<times> rag_world"
where
  "get_query_embedding env text w = embed_with_fallback env ''retrieval_query'' text w"

subsection \<open>add_documents\<close>

text \<open>A document as \<open>add_documents\<close> reads it: \<open>doc['content']\<close>, \<open>doc['title']\<close>, \<open>doc['metadata']\<close>.\<close>

record document =
  doc_content :: string
  doc_title :: pyval
  doc_metadata :: pydict

text \<open>\<open>isinstance(value, (str, int, float, bool))\<close>.\<close>

fun is_scalar :: "pyval \<Rightarrow> bool" where
  "is_scalar (PStr s) = True"
| "is_scalar (PInt i) = True"
| "is_scalar (PFloat r) = True"
| "is_scalar (PBool b) = True"
| "is_scalar PNone = False"
| "is_scalar (PList xs) = False"
| "is_scalar (PDict d) = False"

text \<open>The inner loop over \<open>doc['metadata'].items()\<close>, filling \<open>metadata\<close>.\<close>

fun filter_metadata :: "pydict \<Rightarrow> pydict \<Rightarrow> pydict" where
  "filter_metadata [] metadata = metadata"
| "filter_metadata ((key, val) # items) metadata =
     filter_metadata items (if is_scalar val then AList.update key val metadata else metadata)"

text \<open>
  One pass of the \<open>for doc in documents\<close> loop. The four parallel lists \<open>ids\<close>,
  \<open>embeddings\<close>, \<open>metadatas\<close>, \<open>documents_text\<close> of the source are kept as one list of
  records, entry by entry.
\<close>

definition prepare_document :: "rag_env \<Rightarrow> document \<Rightarrow> rag_world \<Rightarrow> (exn + stored) \<times> rag_world" where
  "prepare_document env doc w =
     (let doc_id = uuid4 env (uuid_count w);
          w1 = w\<lparr>uuid_count := Suc (uuid_count w)\<rparr>;
          content = doc_content doc
      in case get_embedding env content w1 of
           (Inl e, w2) \<Rightarrow> (Inl e, w2)
         | (Inr embedding, w2) \<Rightarrow>
             (let metadata = filter_metadata (doc_metadata doc) [];
                  metadata' = AList.update ''title'' (doc_title doc) metadata
              in (Inr \<lparr>rec_id = doc_id, rec_embedding = embedding,
                        rec_metadata = metadata', rec_document = content\<rparr>, w2)))"

fun prepare_documents ::
  "rag_env \<Rightarrow> document list \<Rightarrow> stored list \<Rightarrow> rag_world \<Rightarrow> (exn + stored list) \<times> rag_world"
where
  "prepare_documents env [] acc w = (Inr acc, w)"
| "prepare_documents env (doc # docs) acc w =
     (case prepare_document env doc w of
        (Inl e, w') \<Rightarrow> (Inl e, w')
      | (Inr r, w') \<Rightarrow> prepare_documents env docs (acc @ [r]) w')"

text \<open>\<open>VectorStore.add_documents\<close>.\<close>

definition add_documents :: "rag_env \<Rightarrow> document list \<Rightarrow> rag_world \<Rightarrow> (exn + unit) \<times> rag_world" where
  "add_documents env documents w =
     (if documents = [] then (Inr (), w)
      else case prepare_documents env documents [] w of
             (Inl e, w') \<Rightarrow> (Inl e, w')
           | (Inr recs, w') \<Rightarrow>
               (Inr (), w'\<lparr>collection := collection_add recs (collection w')\<rparr>))"

subsection \<open>search, get_full_context, reset_collection\<close>

definition dict_get :: "pydict \<Rightarrow> string \<Rightarrow> pyval \<Rightarrow> pyval" where
  "dict_get d k dflt = (case map_of d k of None \<Rightarrow> dflt | Some v \<Rightarrow> v)"

text \<open>The dictionary built for one hit in \<open>VectorStore.search\<close>.\<close>

definition format_hit :: "string \<times> pydict \<times> real \<Rightarrow> pyval" where
  "format_hit hit =
     (case hit of (doc, metadata, distance_value) \<Rightarrow>
        PDict [(''content'', PStr doc),
               (''metadata'', PDict metadata),
               (''similarity_score'', PFloat (1 - distance_value)),
               (''title'', dict_get metadata ''title'' (PStr ''Unknown'')),
               (''source_file'', dict_get metadata ''source_file'' (PStr ''Unknown'')),
               (''page_number'', dict_get metadata ''page_number'' PNone),
               (''chunk_id'', dict_get metadata ''chunk_id'' PNone),
               (''original_document_id'', dict_get metadata ''original_document_id'' PNone),
               (''has_full_context'', PBool (map_of metadata ''full_content'' \<noteq> None))])"

text \<open>
  \<open>VectorStore.search\<close>. The hits are the entries of \<open>results['documents'][0]\<close>,
  \<open>results['metadatas'][0]\<close> and \<open>results['distances'][0]\<close> at the same index.
\<close>

definition search :: "rag_env \<Rightarrow> string \<Rightarrow> nat \<Rightarrow> rag_world \<Rightarrow> (exn + pyval list) \<times> rag_world" where
  "search env query top_k w =
     (case get_query_embedding env query w of
        (Inl e, w') \<Rightarrow> (Inl e, w')
      | (Inr query_embedding, w') \<Rightarrow>
          (let hits = collection_query (distance env) query_embedding top_k (collection w');
               formatted_results = (if hits \<noteq> [] then map format_hit hits else [])
           in (Inr formatted_results, w')))"


text \<open>\<open>VectorStore.reset_collection\<close>: the collection is deleted and created again, empty.\<close>

definition reset_collection :: "rag_world \<Rightarrow> rag_world" where
  "reset_collection w = w\<lparr>collection := []\<rparr>"

section \<open>The retrieval tool (agent/tools.py)\<close>

subsection \<open>Formatting Python values\<close>

fun str_nat :: "nat \<Rightarrow> string" where
  "str_nat n =
     (if n < 10 then [''0123456789'' ! n]
      else str_nat (n div 10) @ [''0123456789'' ! (n mod 10)])"

declare str_nat.simps [simp del]

definition str_int :: "int \<Rightarrow> string" where
  "str_int i = (if i < 0 then ''-'' @ str_nat (nat (- i)) else str_nat (nat i))"

text \<open>
  \<open>str(v)\<close>, as an f-string applies it. The text of a float, a list or a dictionary is
  the interpreter's \<open>repr\<close>, which is not modelled: it is the parameter \<open>rp\<close>.
\<close>

fun py_str :: "(pyval \<Rightarrow> string) \<Rightarrow> pyval \<Rightarrow> string" where
  "py_str rp (PStr s) = s"
| "py_str rp (PInt i) = str_int i"
| "py_str rp (PBool b) = (if b then ''True'' else ''False'')"
| "py_str rp PNone = ''None''"
| "py_str rp v = rp v"

text \<open>Truth value of a Python value (\<open>if page\<close>, \<open>if not results\<close>).\<close>

fun py_truthy :: "pyval \<Rightarrow> bool" where
  "py_truthy (PStr s) = (s \<noteq> [])"
| "py_truthy (PInt i) = (i \<noteq> 0)"
| "py_truthy (PFloat r) = (r \<noteq> 0)"
| "py_truthy (PBool b) = b"
| "py_truthy PNone = False"
| "py_truthy (PList xs) = (xs \<noteq> [])"
| "py_truthy (PDict d) = (d \<noteq> [])"

fun type_name :: "pyval \<Rightarrow> string" where
  "type_name (PStr s) = ''str''"
| "type_name (PInt i) = ''int''"
| "type_name (PFloat r) = ''float''"
| "type_name (PBool b) = ''bool''"
| "type_name PNone = ''NoneType''"
| "type_name (PList xs) = ''list''"
| "type_name (PDict d) = ''dict''"

text \<open>\<open>v.get(k, dflt)\<close>: only a dictionary has the method.\<close>

fun py_get :: "pyval \<Rightarrow> string \<Rightarrow> pyval \<Rightarrow> exn + pyval" where
  "py_get (PDict d) k dflt = Inr (dict_get d k dflt)"
| "py_get v k dflt =
     Inl (Exn AttributeError
       ([CHR 0x27] @ type_name v @ [CHR 0x27] @ '' object has no attribute '' @ [CHR 0x27] @ ''get'' @ [CHR 0x27]))"

text \<open>The items a \<open>for\<close> loop over a value visits.\<close>

fun py_iter :: "pyval \<Rightarrow> exn + pyval list" where
  "py_iter (PList xs) = Inr xs"
| "py_iter (PStr s) = Inr (map (\<lambda>c. PStr [c]) s)"
| "py_iter (PDict d) = Inr (map (\<lambda>kv. PStr (fst kv)) d)"
| "py_iter v = Inl (Exn TypeError ([CHR 0x27] @ type_name v @ [CHR 0x27] @ '' object is not iterable''))"

subsection \<open>search_knowledge_base and its local fallback\<close>

record http_response =
  status_code :: int
  json_body :: "exn + pyval"

text \<open>
  \<open>requests_post\<close> is the remote endpoint as the caller sees it (URL, JSON body, timeout
  in seconds): a response, or an exception. \<open>vector_store_error\<close> is the exception that
  \<open>get_vector_store()\<close> raises, if it does.
\<close>

record tools_env =
  rag :: rag_env
  requests_post :: "string \<Rightarrow> pydict \<Rightarrow> nat \<Rightarrow> exn + http_response"
  vector_store_error :: "exn option"
  py_repr :: "pyval \<Rightarrow> string"

definition API_URL :: string where
  "API_URL = ''https://ai-booking-assistant-svqo.onrender.com/search''"

definition NO_INFO :: string where
  "NO_INFO = ''No relevant information found in the knowledge base. The user may need to upload documents first.''"

definition SEPARATOR :: string where
  "SEPARATOR = [CHR 0x0A, CHR 0x0A] @ ''---'' @ [CHR 0x0A, CHR 0x0A]"

text \<open>
  The block under \<open># Format results\<close>, which both functions contain word for word: the
  loop that fills \<open>context_parts\<close>.
\<close>

fun format_context_parts :: "(pyval \<Rightarrow> string) \<Rightarrow> pyval list \<Rightarrow> string list \<Rightarrow> exn + string list" where
  "format_context_parts rp [] context_parts = Inr context_parts"
| "format_context_parts rp (result # rest) context_parts =
     (case py_get result ''source_file'' (PStr ''Unknown'') of
        Inl e \<Rightarrow> Inl e
      | Inr source \<Rightarrow>
          (case py_get result ''page_number'' (PStr []) of
             Inl e \<Rightarrow> Inl e
           | Inr page \<Rightarrow>
               (case py_get result ''content'' (PStr []) of
                  Inl e \<Rightarrow> Inl e
                | Inr content \<Rightarrow>
                    (let page_info = (if py_truthy page then '' (Page '' @ py_str rp page @ '')'' else [])
                     in format_context_parts rp rest
                          (context_parts @
                             [''[Source: '' @ py_str rp source @ page_info @ '']'' @ [CHR 0x0A] @ py_str rp content])))))"

text \<open>\<open>_search_local_knowledge_base\<close>.\<close>

definition search_local_knowledge_base :: "tools_env \<Rightarrow> string \<Rightarrow> rag_world \<Rightarrow> string \<times> rag_world" where
  "search_local_knowledge_base env query w =
     (case vector_store_error env of
        Some e \<Rightarrow> (''Error searching local knowledge base: '' @ str_exn e, w)
      | None \<Rightarrow>
          (case search (rag env) query 3 w of
             (Inl e, w') \<Rightarrow> (''Error searching local knowledge base: '' @ str_exn e, w')
           | (Inr results, w') \<Rightarrow>
               if results = [] then (NO_INFO, w')
               else
                 (case format_context_parts (py_repr env) results [] of
                    Inl e \<Rightarrow> (''Error searching local knowledge base: '' @ str_exn e, w')
                  | Inr context_parts \<Rightarrow> (join SEPARATOR context_parts, w'))))"

text \<open>
  The two \<open>except\<close> clauses of \<open>search_knowledge_base\<close>, in their order.
\<close>

definition search_except :: "tools_env \<Rightarrow> string \<Rightarrow> rag_world \<Rightarrow> exn \<Rightarrow> string \<times> rag_world" where
  "search_except env query w e =
     (if isinstance_RequestException e then search_local_knowledge_base env query w
      else (''Error searching knowledge base: '' @ str_exn e, w))"

text \<open>\<open>search_knowledge_base\<close>.\<close>

definition search_knowledge_base :: "tools_env \<Rightarrow> string \<Rightarrow> rag_world \<Rightarrow> string \<times> rag_world" where
  "search_knowledge_base env query w =
     (case requests_post env API_URL [(''query'', PStr query), (''top_k'', PInt 3)] 30 of
        Inl e \<Rightarrow> search_except env query w e
      | Inr response \<Rightarrow>
          if status_code response \<noteq> 200 then search_local_knowledge_base env query w
          else
            (case json_body response of
               Inl e \<Rightarrow> search_except env query w e
             | Inr data \<Rightarrow>
                 (case py_get data ''results'' (PList []) of
                    Inl e \<Rightarrow> search_except env query w e
                  | Inr results \<Rightarrow>
                      if \<not> py_truthy results then (NO_INFO, w)
                      else
                        (case py_iter results of
                           Inl e \<Rightarrow> search_except env query w e
                         | Inr items \<Rightarrow>
                             (case format_context_parts (py_repr env) items [] of
                                Inl e \<Rightarrow> search_except env query w e
                              | Inr context_parts \<Rightarrow> (join SEPARATOR context_parts, w))))))"

section \<open>Notions used in the statements\<close>

text \<open>
  A part that the scan of \<open>chat\<close> takes for a function call: its function call has a
  name.
\<close>

fun is_function_call_part :: "part \<Rightarrow> bool" where
  "is_function_call_part (FunctionCallPart fc) = (fc_name fc \<noteq> [])"
| "is_function_call_part (TextPart t) = False"
| "is_function_call_part OtherPart = False"

text \<open>
  An answer of the provider that ends the turn: the call raises, or the response has no
  candidate, or the scan finds no function call in the first candidate.
\<close>

definition ends_turn :: "exn + response \<Rightarrow> bool" where
  "ends_turn r =
     (case r of
        Inl e \<Rightarrow> True
      | Inr response \<Rightarrow>
          (case candidates response of
             [] \<Rightarrow> True
           | c # cs \<Rightarrow> fst (scan_parts (parts c) []) = None))"

text \<open>
  The turn ends within \<open>n\<close> further tool cycles: the answer at hand ends it, or the loop
  goes round with a function response and one of the next \<open>n\<close> answers ends it (an
  exception of the provider in answer to a function response leaves the loop as well).
\<close>

fun turn_ends_within ::
  "nat \<Rightarrow> 'w agent_env \<Rightarrow> content list \<Rightarrow> 'w \<Rightarrow> exn + response \<Rightarrow> bool"
where
  "turn_ends_within n env sent w (Inl e) = True"
| "turn_ends_within 0 env sent w (Inr response) = ends_turn (Inr response)"
| "turn_ends_within (Suc n) env sent w (Inr response) =
     (case response_cycle env sent w response of
        Leave r sent' w' \<Rightarrow> True
      | Again sent' w' response' \<Rightarrow> turn_ends_within n env sent' w' (Inr response'))"

text \<open>
  A sequence of successful calls of \<open>chat\<close>, one per user message: the entries appended
  over the whole sequence, in order, and the state at the end. \<open>None\<close> when some call
  takes the exception path or never returns.
\<close>

fun run_chats ::
  "'w agent_env \<Rightarrow> string list \<Rightarrow> 'w assistant \<Rightarrow> (history_entry list \<times> 'w assistant) option"
where
  "run_chats env [] st = Some ([], st)"
| "run_chats env (m # ms) st =
     (case chat_body env m st of
        None \<Rightarrow> None
      | Some (Inl e, st') \<Rightarrow> None
      | Some (Inr a, st') \<Rightarrow>
          (case run_chats env ms st' of
             None \<Rightarrow> None
           | Some (appended, st'') \<Rightarrow> Some ((''user'', m) # (''assistant'', a) # appended, st'')))"

text \<open>The last \<open>n\<close> entries of a list, in their order.\<close>

definition last_entries :: "nat \<Rightarrow> 'a list \<Rightarrow> 'a list" where
  "last_entries n xs = drop (length xs - n) xs"

text \<open>
  The stored metadata that \<open>add_documents\<close> computes for one document, and the record
  group of a parent document.
\<close>

definition stored_metadata :: "document \<Rightarrow> pydict" where
  "stored_metadata doc = AList.update ''title'' (doc_title doc) (filter_metadata (doc_metadata doc) [])"


text \<open>
  How the remote call of \<open>search_knowledge_base\<close> can go: it fails in a way the function
  recovers from (a status other than 200, or an exception of the class
  \<open>RequestException\<close>, which covers timeouts), or it succeeds with nothing in \<open>results\<close>.
  The local search finds nothing when the store is available and \<open>search\<close> returns the
  empty list.
\<close>

definition remote_failed :: "tools_env \<Rightarrow> string \<Rightarrow> bool" where
  "remote_failed env query =
     (case requests_post env API_URL [(''query'', PStr query), (''top_k'', PInt 3)] 30 of
        Inl e \<Rightarrow> isinstance_RequestException e
      | Inr response \<Rightarrow> status_code response \<noteq> 200)"

definition remote_no_results :: "tools_env \<Rightarrow> string \<Rightarrow> bool" where
  "remote_no_results env query =
     (case requests_post env API_URL [(''query'', PStr query), (''top_k'', PInt 3)] 30 of
        Inl e \<Rightarrow> False
      | Inr response \<Rightarrow>
          status_code response = 200 \<and>
          (case json_body response of
             Inl e \<Rightarrow> False
           | Inr data \<Rightarrow>
               (case py_get data ''results'' (PList []) of
                  Inl e \<Rightarrow> False
                | Inr results \<Rightarrow> \<not> py_truthy results)))"

definition local_no_results :: "tools_env \<Rightarrow> string \<Rightarrow> rag_world \<Rightarrow> bool" where
  "local_no_results env query w =
     (vector_store_error env = None \<and> fst (search (rag env) query 3 w) = Inr [])"

section \<open>Sample environments\<close>

text \<open>
  A provider and a registry to run the definitions on. The world of the sample tools is
  the number of tool invocations so far.
\<close>

definition text_response :: "string \<Rightarrow> response" where
  "text_response t = \<lparr>candidates = [\<lparr>parts = [TextPart t], finish_reason = 1\<rparr>], text_property = Inr t\<rparr>"

definition call_response :: "part list \<Rightarrow> response" where
  "call_response ps =
     \<lparr>candidates = [\<lparr>parts = ps, finish_reason = 1\<rparr>],
      text_property = Inl (Exn ValueError ''no text in response'')\<rparr>"

definition sample_tools :: "nat tool_funcs" where
  "sample_tools =
     \<lparr>search_knowledge_base_fn = (\<lambda>args n. (Inr ''context'', Suc n)),
      create_booking_fn = (\<lambda>args n. (Inl (Exn TypeError ''missing argument''), Suc n)),
      send_confirmation_email_fn = (\<lambda>args n. (Inr ''sent'', Suc n)),
      get_booking_info_fn = (\<lambda>args n. (Inr ''not found'', Suc n)),
      web_search_movies_fn = (\<lambda>args n. (Inr ''movies'', Suc n))\<rparr>"

definition sample_call :: "string \<Rightarrow> part" where
  "sample_call tool = FunctionCallPart \<lparr>fc_name = tool, fc_args = []\<rparr>"

definition sample_model :: "content list \<Rightarrow> exn + response" where
  "sample_model sent =
     (case last sent of
        FunctionResponse tool result \<Rightarrow> Inr (text_response result)
      | UserMessage m \<Rightarrow>
          if m = ''crash'' then Inl (Exn OtherException ''quota exceeded'')
          else if m = ''search'' then
            Inr (call_response [TextPart ''one moment'', sample_call ''search_knowledge_base'',
                                sample_call ''web_search_movies''])
          else if m = ''book'' then Inr (call_response [sample_call ''create_booking''])
          else if m = ''other'' then Inr (call_response [sample_call ''cancel_booking''])
          else Inr (text_response ''hello''))"

definition sample_env :: "nat agent_env" where
  "sample_env = \<lparr>send_message = sample_model, tools = sample_tools\<rparr>"

text \<open>A provider that answers everything with a call of a tool that is not registered.\<close>

definition insisting_env :: "nat agent_env" where
  "insisting_env =
     \<lparr>send_message = (\<lambda>sent. Inr (call_response [sample_call ''cancel_booking''])),
      tools = sample_tools\<rparr>"

text \<open>
  A provider that asks for a tool that is not registered, then for one that raises, and
  answers the second error with a text.
\<close>

definition relenting_model :: "content list \<Rightarrow> exn + response" where
  "relenting_model sent =
     (case last sent of
        UserMessage m \<Rightarrow> Inr (call_response [sample_call ''cancel_booking''])
      | FunctionResponse tool result \<Rightarrow>
          if tool = ''cancel_booking'' then Inr (call_response [sample_call ''create_booking''])
          else Inr (text_response ''done''))"

definition relenting_env :: "nat agent_env" where
  "relenting_env = \<lparr>send_message = relenting_model, tools = sample_tools\<rparr>"

text \<open>
  An embedding provider that fails on the text \<open>bad\<close> and answers with a vector of 768
  ones otherwise; identifiers \<open>u\<close>, \<open>uu\<close>, ...; a constant metric.
\<close>

definition sample_rag :: rag_env where
  "sample_rag =
     \<lparr>embed_content = (\<lambda>log text task.
         if text = ''bad'' then Inl (Exn OtherException ''provider down'')
         else Inr [(''embedding'', replicate 768 1)]),
      uuid4 = (\<lambda>n. replicate (Suc n) (CHR ''u'')),
      distance = (\<lambda>q e. 0)\<rparr>"

definition empty_world :: rag_world where
  "empty_world = \<lparr>collection = [], embed_log = [], uuid_count = 0\<rparr>"

definition failing_remote :: tools_env where
  "failing_remote =
     \<lparr>rag = sample_rag,
      requests_post = (\<lambda>url body timeout.
         if map_of body ''query'' = Some (PStr ''down'') then Inl (Exn RequestsTimeout ''timed out'')
         else if map_of body ''query'' = Some (PStr ''empty'')
           then Inr \<lparr>status_code = 200, json_body = Inr (PDict [(''results'', PList [])])\<rparr>
         else Inr \<lparr>status_code = 503, json_body = Inl (Exn ValueError ''no JSON'')\<rparr>),
      vector_store_error = None,
      py_repr = (\<lambda>v. ''?'')\<rparr>"

text \<open>
  An index that already holds one record, and documents to add to it.
\<close>

definition old_world :: rag_world where
  "old_world =
     \<lparr>collection = [\<lparr>rec_id = ''u'', rec_embedding = [], rec_metadata = [(''title'', PStr ''old'')],
                      rec_document = ''old text''\<rparr>],
      embed_log = [(''old text'', ''retrieval_document'')],
      uuid_count = 1\<rparr>"

definition sample_doc :: document where
  "sample_doc =
     \<lparr>doc_content = ''text'', doc_title = PStr ''B'',
      doc_metadata = [(''title'', PStr ''A''), (''page_number'', PInt 3), (''tags'', PList [PStr ''x''])]\<rparr>"


section \<open>The conversation loop: what one response leads to\<close>

subsection \<open>The scan and the dispatcher\<close>

lemma scan_parts_first:
  "\<forall>p\<in>set pre. \<not> is_function_call_part p \<Longrightarrow> fc_name fc \<noteq> [] \<Longrightarrow>
   fst (scan_parts (pre @ FunctionCallPart fc # rest) acc) = Some fc"
proof (induction pre arbitrary: acc)
  case Nil
  then show ?case by simp
next
  case (Cons p pre)
  then show ?case by (cases p) auto
qed

lemma scan_parts_none:
  "\<forall>p\<in>set ps. \<not> is_function_call_part p \<Longrightarrow> fst (scan_parts ps acc) = None"
proof (induction ps arbitrary: acc)
  case Nil
  then show ?case by simp
next
  case (Cons p ps)
  then show ?case by (cases p) auto
qed

lemma execute_tool_returns: "\<exists>r w'. execute_tool t fc w = (Inr r, w')"
  by (auto simp: execute_tool_def Let_def split: option.splits prod.splits sum.splits)

lemma response_cycle_call:
  assumes "candidates response = c # cs"
    and "parts c = pre @ FunctionCallPart fc # rest"
    and "fc_name fc \<noteq> []"
    and "\<forall>p\<in>set pre. \<not> is_function_call_part p"
    and "execute_tool (tools env) fc w = (Inr tool_result, w')"
  shows "response_cycle env sent w response =
           (case send_message env (sent @ [FunctionResponse (fc_name fc) tool_result]) of
              Inl e \<Rightarrow> Leave (Inl e) (sent @ [FunctionResponse (fc_name fc) tool_result]) w'
            | Inr response' \<Rightarrow> Again (sent @ [FunctionResponse (fc_name fc) tool_result]) w' response')"
proof -
  have "fst (scan_parts (parts c) []) = Some fc"
    using assms(2-4) by (simp add: scan_parts_first)
  moreover have "parts c \<noteq> []" using assms(2) by simp
  ultimately show ?thesis
    using assms(1,5) by (simp add: response_cycle_def Let_def)
qed

lemma response_cycle_without_function_call:
  assumes "candidates response = c # cs"
    and "\<forall>p\<in>set (parts c). \<not> is_function_call_part p"
  shows "response_cycle env sent w response = Leave (Inr response) sent w"
  using assms by (simp add: response_cycle_def scan_parts_none)

lemma response_cycle_ends_turn:
  assumes "ends_turn (Inr response)"
  shows "\<exists>x. response_cycle env sent w response = Leave x sent w"
  using assms by (auto simp: ends_turn_def response_cycle_def split: list.splits)

lemma chat_loop_ends_turn:
  assumes "ends_turn (Inr response)"
  shows "\<exists>x. chat_loop env sent w response = Some (x, sent, w)"
proof -
  from response_cycle_ends_turn[OF assms, of env sent w] obtain x
    where "response_cycle env sent w response = Leave x sent w" by auto
  then show ?thesis by (subst chat_loop.simps) simp
qed

subsection \<open>One tool call per response\<close>



subsection \<open>Tool errors\<close>

text \<open>
  A turn returns exactly when one of the model's answers ends it; the loop has no bound
  of its own.
\<close>

lemma chat_loop_of_turn_ends:
  "turn_ends_within n env sent w (Inr response) \<Longrightarrow> \<exists>y. chat_loop env sent w response = Some y"
proof (induction n arbitrary: sent w response)
  case 0
  then have "ends_turn (Inr response)" by simp
  from chat_loop_ends_turn[OF this, of env sent w] show ?case by auto
next
  case (Suc n)
  show ?case
  proof (cases "response_cycle env sent w response")
    case (Leave r sent' w')
    then show ?thesis by (subst chat_loop.simps) simp
  next
    case (Again sent' w' response')
    with Suc.prems have "turn_ends_within n env sent' w' (Inr response')" by simp
    from Suc.IH[OF this] Again show ?thesis by (subst chat_loop.simps) simp
  qed
qed

lemma turn_ends_of_chat_loop:
  assumes "chat_loop env sent w response = Some y"
  shows "\<exists>n. turn_ends_within n env sent w (Inr response)"
proof (rule chat_loop.raw_induct[where P = "\<lambda>env sent w response y. \<exists>n. turn_ends_within n env sent w (Inr response)", OF _ assms])
  fix f :: "'a agent_env \<Rightarrow> content list \<Rightarrow> 'a \<Rightarrow> response \<Rightarrow> ((exn + response) \<times> content list \<times> 'a) option"
  fix env sent w response y
  assume IH: "\<And>env sent w response y. f env sent w response = Some y \<Longrightarrow> \<exists>n. turn_ends_within n env sent w (Inr response)"
    and step: "(case response_cycle env sent w response of Leave r sent' w' \<Rightarrow> Some (r, sent', w')
         | Again sent' w' response' \<Rightarrow> f env sent' w' response') = Some y"
  show "\<exists>n. turn_ends_within n env sent w (Inr response)"
  proof (cases "response_cycle env sent w response")
    case (Leave r sent' w')
    then have "turn_ends_within (Suc 0) env sent w (Inr response)" by simp
    then show ?thesis by blast
  next
    case (Again sent' w' response')
    with step have "f env sent' w' response' = Some y" by simp
    from IH[OF this] obtain n where "turn_ends_within n env sent' w' (Inr response')" by blast
    with Again have "turn_ends_within (Suc n) env sent w (Inr response)" by simp
    then show ?thesis by blast
  qed
qed

lemma chat_returns_iff:
  "(\<exists>reply st'. chat env user_message st = Some (reply, st')) \<longleftrightarrow>
   (\<exists>n. turn_ends_within n env
          ((case chat_session st of None \<Rightarrow> [] | Some s \<Rightarrow> s) @ [UserMessage user_message]) (tool_world st)
          (send_message env ((case chat_session st of None \<Rightarrow> [] | Some s \<Rightarrow> s) @ [UserMessage user_message])))"
proof -
  let ?sent = "(case chat_session st of None \<Rightarrow> [] | Some s \<Rightarrow> s) @ [UserMessage user_message]"
  show ?thesis
  proof (cases "send_message env ?sent")
    case (Inl e)
    then show ?thesis by (simp add: chat_def chat_body_def)
  next
    case (Inr response)
    have "(\<exists>reply st'. chat env user_message st = Some (reply, st')) \<longleftrightarrow>
          (\<exists>y. chat_loop env ?sent (tool_world st) response = Some y)"
      using Inr by (auto simp: chat_def chat_body_def Let_def split: option.splits sum.splits prod.splits)
    also have "\<dots> \<longleftrightarrow> (\<exists>n. turn_ends_within n env ?sent (tool_world st) (Inr response))"
      using chat_loop_of_turn_ends[of _ env ?sent "tool_world st" response]
            turn_ends_of_chat_loop[of env ?sent "tool_world st" response] by auto
    finally show ?thesis using Inr by simp
  qed
qed

lemma response_cycle_continues:
  assumes "\<not> ends_turn (Inr response)"
  shows "\<exists>(fc::function_call) tool_result w'.
           response_cycle env sent w response =
             (case send_message env (sent @ [FunctionResponse (fc_name fc) tool_result]) of
                Inl e \<Rightarrow> Leave (Inl e) (sent @ [FunctionResponse (fc_name fc) tool_result]) w'
              | Inr response' \<Rightarrow> Again (sent @ [FunctionResponse (fc_name fc) tool_result]) w' response')"
proof -
  from assms obtain c cs fc where c: "candidates response = c # cs"
    and s: "fst (scan_parts (parts c) []) = Some fc"
    by (auto simp: ends_turn_def split: list.splits)
  from s have ne: "parts c \<noteq> []" by auto
  obtain tool_result w' where ex: "execute_tool (tools env) fc w = (Inr tool_result, w')"
    using execute_tool_returns[of "tools env" fc w] by auto
  show ?thesis
    using c s ne ex
    by (intro exI[of _ fc] exI[of _ tool_result] exI[of _ w']) (simp add: response_cycle_def Let_def)
qed

lemma turn_never_ends:
  assumes "\<forall>s. \<not> ends_turn (send_message env s)"
  shows "\<not> turn_ends_within n env sent w (send_message env s)"
proof (induction n arbitrary: sent w s)
  case 0
  from assms have "\<not> ends_turn (send_message env s)" by simp
  then show ?case by (cases "send_message env s") (simp_all add: ends_turn_def)
next
  case (Suc n)
  from assms have ne: "\<not> ends_turn (send_message env s)" by simp
  then obtain response where r: "send_message env s = Inr response"
    by (cases "send_message env s") (simp_all add: ends_turn_def)
  from ne r response_cycle_continues[of response env sent w] obtain fc :: function_call and tool_result w' where
    cyc: "response_cycle env sent w response =
             (case send_message env (sent @ [FunctionResponse (fc_name fc) tool_result]) of
                Inl e \<Rightarrow> Leave (Inl e) (sent @ [FunctionResponse (fc_name fc) tool_result]) w'
              | Inr response' \<Rightarrow> Again (sent @ [FunctionResponse (fc_name fc) tool_result]) w' response')"
    by auto
  let ?s' = "sent @ [FunctionResponse (fc_name fc) tool_result]"
  from assms have "\<not> ends_turn (send_message env ?s')" by simp
  then obtain r' where r': "send_message env ?s' = Inr r'"
    by (cases "send_message env ?s'") (simp_all add: ends_turn_def)
  from Suc.IH[of ?s' w' ?s'] r' have "\<not> turn_ends_within n env ?s' w' (Inr r')" by simp
  with cyc r r' show ?case by simp
qed

lemma chat_never_returns:
  assumes "\<forall>s. \<not> ends_turn (send_message env s)"
  shows "chat env user_message st = None"
proof -
  have "\<not> (\<exists>reply st'. chat env user_message st = Some (reply, st'))"
    unfolding chat_returns_iff using turn_never_ends[OF assms] by blast
  then show ?thesis by (cases "chat env user_message st") auto
qed

text \<open>
  Claim C4, as stated, fails: the tool \<open>cancel_booking\<close> is not in the registry, and with
  a provider that answers every message with that call the turn produces no reply.
\<close>

theorem unknown_tool_turn_without_reply:
  "TOOL_MAP (tools insisting_env) ''cancel_booking'' = None \<and>
   chat insisting_env ''hi'' (init_assistant 20 0) = None"
proof -
  have "\<forall>s. \<not> ends_turn (send_message insisting_env s)"
    by (simp add: insisting_env_def ends_turn_def call_response_def sample_call_def)
  from chat_never_returns[OF this]
  have "chat insisting_env ''hi'' (init_assistant 20 0) = None" .
  moreover have "TOOL_MAP (tools insisting_env) ''cancel_booking'' = None"
    by (simp add: insisting_env_def TOOL_MAP_def sample_tools_def)
  ultimately show ?thesis by simp
qed

text \<open>
  Claim C4, amended. The dispatcher raises nothing, whatever the call. Let a response,
  in any cycle of a turn, ask for the call \<open>fc\<close> first, and let the call fail: its name
  is not registered, or the registered callable raises \<open>e\<close>. Then the dispatcher returns
  the error string (the unknown-tool string, or \<open>Error executing name: str(e)\<close>), and
  the loop sends that string to the model as the function response and goes on with the
  model's answer to it. \<open>chat\<close> returns a reply for the turn exactly when, after some
  number of tool cycles, an answer of the model ends the turn; with a provider none of
  whose answers ends a turn, \<open>chat\<close> does not return.
\<close>

theorem tool_error_is_fed_back:
  assumes cand: "candidates response = c # cs"
    and prts: "parts c = pre @ FunctionCallPart fc # rest"
    and name: "fc_name fc \<noteq> []"
    and pre: "\<forall>p\<in>set pre. \<not> is_function_call_part p"
    and failure:
      "(TOOL_MAP (tools env) (fc_name fc) = None \<and>
          msg = ''Error: Unknown tool '' @ [CHR 0x27] @ fc_name fc @ [CHR 0x27] \<and> w' = w) \<or>
       (\<exists>tool_func e. TOOL_MAP (tools env) (fc_name fc) = Some tool_func \<and>
          tool_func (fc_args fc) w = (Inl e, w') \<and>
          msg = ''Error executing '' @ fc_name fc @ '': '' @ str_exn e)"
  shows "(\<forall>fc0 w0. \<exists>r w1. execute_tool (tools env) fc0 w0 = (Inr r, w1)) \<and>
         execute_tool (tools env) fc w = (Inr msg, w') \<and>
         chat_loop env sent w response =
           (case send_message env (sent @ [FunctionResponse (fc_name fc) msg]) of
              Inl e \<Rightarrow> Some (Inl e, sent @ [FunctionResponse (fc_name fc) msg], w')
            | Inr response' \<Rightarrow> chat_loop env (sent @ [FunctionResponse (fc_name fc) msg]) w' response') \<and>
         ((\<exists>reply st'. chat env user_message st = Some (reply, st')) \<longleftrightarrow>
          (\<exists>n. turn_ends_within n env
                 ((case chat_session st of None \<Rightarrow> [] | Some s \<Rightarrow> s) @ [UserMessage user_message])
                 (tool_world st)
                 (send_message env
                    ((case chat_session st of None \<Rightarrow> [] | Some s \<Rightarrow> s) @ [UserMessage user_message])))) \<and>
         ((\<forall>s. \<not> ends_turn (send_message env s)) \<longrightarrow> chat env user_message st = None)"
proof -
  have never: "\<forall>fc0 w0. \<exists>r w1. execute_tool (tools env) fc0 w0 = (Inr r, w1)"
    using execute_tool_returns[of "tools env"] by blast
  have ex: "execute_tool (tools env) fc w = (Inr msg, w')"
    using failure by (auto simp: execute_tool_def)
  note cyc = response_cycle_call[OF cand prts name pre ex, of sent]
  have loop: "chat_loop env sent w response =
           (case send_message env (sent @ [FunctionResponse (fc_name fc) msg]) of
              Inl e \<Rightarrow> Some (Inl e, sent @ [FunctionResponse (fc_name fc) msg], w')
            | Inr response' \<Rightarrow> chat_loop env (sent @ [FunctionResponse (fc_name fc) msg]) w' response')"
    by (subst chat_loop.simps) (simp add: cyc split: sum.splits)
  have stuck: "(\<forall>s. \<not> ends_turn (send_message env s)) \<longrightarrow> chat env user_message st = None"
    using chat_never_returns[of env user_message st] by blast
  from never ex loop chat_returns_iff[of env user_message st] stuck show ?thesis by blast
qed

theorem tool_error_is_fed_back_witness:
  "chat_loop relenting_env
      [UserMessage ''hi'',
       FunctionResponse ''cancel_booking'' (''Error: Unknown tool '' @ [CHR 0x27] @ ''cancel_booking'' @ [CHR 0x27])]
      0 (call_response [sample_call ''create_booking''])
     = chat_loop relenting_env
         [UserMessage ''hi'',
          FunctionResponse ''cancel_booking'' (''Error: Unknown tool '' @ [CHR 0x27] @ ''cancel_booking'' @ [CHR 0x27]),
          FunctionResponse ''create_booking'' ''Error executing create_booking: missing argument'']
         1 (text_response ''done'') \<and>
   (\<exists>reply st'. chat relenting_env ''hi'' (init_assistant 20 0) = Some (reply, st')) \<and>
   chat insisting_env ''hi'' (init_assistant 20 0) = None"
proof -
  let ?st = "init_assistant 20 (0::nat)"
  let ?unknown = "''Error: Unknown tool '' @ [CHR 0x27] @ ''cancel_booking'' @ [CHR 0x27]"
  let ?raised = "''Error executing create_booking: missing argument''"
  let ?fc1 = "\<lparr>fc_name = ''cancel_booking'', fc_args = []\<rparr>"
  let ?fc2 = "\<lparr>fc_name = ''create_booking'', fc_args = []\<rparr>"
  let ?sent1 = "[UserMessage ''hi'', FunctionResponse ''cancel_booking'' ?unknown]"
  have c1: "candidates (call_response [sample_call ''cancel_booking'']) =
              \<lparr>parts = [sample_call ''cancel_booking''], finish_reason = 1\<rparr> # []"
    by (simp add: call_response_def)
  have c2: "candidates (call_response [sample_call ''create_booking'']) =
              \<lparr>parts = [sample_call ''create_booking''], finish_reason = 1\<rparr> # []"
    by (simp add: call_response_def)
  have p1: "parts \<lparr>parts = [sample_call ''cancel_booking''], finish_reason = 1\<rparr> = [] @ FunctionCallPart ?fc1 # []"
    by (simp add: sample_call_def)
  have p2: "parts \<lparr>parts = [sample_call ''create_booking''], finish_reason = 1\<rparr> = [] @ FunctionCallPart ?fc2 # []"
    by (simp add: sample_call_def)
  have n1: "fc_name ?fc1 \<noteq> []" and n2: "fc_name ?fc2 \<noteq> []" by simp_all
  have e: "\<forall>p\<in>set []. \<not> is_function_call_part p" by simp
  have k1: "(TOOL_MAP (tools insisting_env) (fc_name ?fc1) = None \<and>
          ?unknown = ''Error: Unknown tool '' @ [CHR 0x27] @ fc_name ?fc1 @ [CHR 0x27] \<and> (0::nat) = 0) \<or>
       (\<exists>tool_func e. TOOL_MAP (tools insisting_env) (fc_name ?fc1) = Some tool_func \<and>
          tool_func (fc_args ?fc1) 0 = (Inl e, 0) \<and>
          ?unknown = ''Error executing '' @ fc_name ?fc1 @ '': '' @ str_exn e)"
    by (simp add: insisting_env_def sample_tools_def TOOL_MAP_def)
  have k2: "(TOOL_MAP (tools relenting_env) (fc_name ?fc2) = None \<and>
          ?raised = ''Error: Unknown tool '' @ [CHR 0x27] @ fc_name ?fc2 @ [CHR 0x27] \<and> (1::nat) = 0) \<or>
       (\<exists>tool_func e. TOOL_MAP (tools relenting_env) (fc_name ?fc2) = Some tool_func \<and>
          tool_func (fc_args ?fc2) 0 = (Inl e, 1) \<and>
          ?raised = ''Error executing '' @ fc_name ?fc2 @ '': '' @ str_exn e)"
    by (rule disjI2, rule exI[of _ "create_booking_fn sample_tools"], rule exI[of _ "Exn TypeError ''missing argument''"])
       (simp add: relenting_env_def sample_tools_def TOOL_MAP_def)
  note r2 = tool_error_is_fed_back[OF c2 p2 n2 e k2, of ?sent1 "''hi''" ?st]
  note r1 = tool_error_is_fed_back[OF c1 p1 n1 e k1, of "[UserMessage ''hi'']" "''hi''" ?st]
  have s2: "send_message relenting_env (?sent1 @ [FunctionResponse (fc_name ?fc2) ?raised]) = Inr (text_response ''done'')"
    by (simp add: relenting_env_def relenting_model_def)
  have ends: "turn_ends_within (Suc (Suc 0)) relenting_env
                ((case chat_session ?st of None \<Rightarrow> [] | Some s \<Rightarrow> s) @ [UserMessage ''hi''])
                (tool_world ?st)
                (send_message relenting_env
                   ((case chat_session ?st of None \<Rightarrow> [] | Some s \<Rightarrow> s) @ [UserMessage ''hi'']))"
    by (simp add: init_assistant_def relenting_env_def relenting_model_def response_cycle_def
          call_response_def sample_call_def execute_tool_def TOOL_MAP_def sample_tools_def
          ends_turn_def text_response_def)
  have never: "\<forall>s. \<not> ends_turn (send_message insisting_env s)"
    by (simp add: insisting_env_def ends_turn_def call_response_def sample_call_def)
  have a: "chat_loop relenting_env ?sent1 0 (call_response [sample_call ''create_booking''])
     = chat_loop relenting_env (?sent1 @ [FunctionResponse ''create_booking'' ?raised]) 1 (text_response ''done'')"
    using r2 s2 by simp
  have b: "\<exists>reply st'. chat relenting_env ''hi'' ?st = Some (reply, st')"
    using r2 ends by blast
  have c: "chat insisting_env ''hi'' ?st = None"
    using r1 never by blast
  from a b c show ?thesis by simp
qed

subsection \<open>The exception path\<close>

text \<open>
  Claim C9. When an exception leaves the body of \<open>chat\<close>, the handler's reply is
  returned and the chat history is what it was before the call: neither the user message
  nor the reply has been appended.
\<close>

theorem chat_exception_keeps_history:
  assumes "chat_body env user_message st = Some (Inl e, st')"
  shows "chat env user_message st = Some (chat_error_reply e, st') \<and> chat_history st' = chat_history st
    \<and> max_history st' = max_history st"
  using assms
  by (auto simp: chat_def chat_body_def Let_def split: sum.splits option.splits prod.splits)

theorem chat_exception_keeps_history_witness:
  "chat_body sample_env ''crash'' (init_assistant 20 0\<lparr>chat_history := [(''user'', ''a''), (''assistant'', ''b'')]\<rparr>)
     = Some (Inl (Exn OtherException ''quota exceeded''),
          (init_assistant 20 0) \<lparr>chat_history := [(''user'', ''a''), (''assistant'', ''b'')], chat_session := Some [UserMessage ''crash'']\<rparr>)
   \<and> chat sample_env ''crash'' (init_assistant 20 0\<lparr>chat_history := [(''user'', ''a''), (''assistant'', ''b'')]\<rparr>)
     = Some (''I encountered an error: quota exceeded. Please try again or rephrase your request.'',
          (init_assistant 20 0) \<lparr>chat_history := [(''user'', ''a''), (''assistant'', ''b'')], chat_session := Some [UserMessage ''crash'']\<rparr>)"
proof -
  let ?st = "init_assistant 20 (0::nat)\<lparr>chat_history := [(''user'', ''a''), (''assistant'', ''b'')]\<rparr>"
  let ?st' = "(init_assistant 20 (0::nat)) \<lparr>chat_history := [(''user'', ''a''), (''assistant'', ''b'')], chat_session := Some [UserMessage ''crash'']\<rparr>"
  have b: "chat_body sample_env ''crash'' ?st = Some (Inl (Exn OtherException ''quota exceeded''), ?st')"
    by (simp add: chat_body_def sample_env_def sample_model_def init_assistant_def)
  have r: "chat_error_reply (Exn OtherException ''quota exceeded'') = ''I encountered an error: quota exceeded. Please try again or rephrase your request.''"
    by (simp add: chat_error_reply_def sublist_Cons_right)
  from chat_exception_keeps_history[OF b] b r show ?thesis by simp
qed

section \<open>The history bound\<close>

text \<open>
  On the successful path a call appends the user message and the reply, then trims.
\<close>

lemma chat_body_success:
  assumes "chat_body env m st = Some (Inr a, st')"
  shows "chat_history st' =
           chat_history (trim_history (st\<lparr>chat_history := chat_history st @ [(''user'', m), (''assistant'', a)]\<rparr>))
         \<and> max_history st' = max_history st"
  using assms
  by (auto simp: chat_body_def Let_def trim_history_def split: sum.splits option.splits prod.splits if_splits)

lemma trim_history_positive:
  assumes "0 < max_history st"
  shows "chat_history (trim_history st) = last_entries (nat (2 * max_history st)) (chat_history st)"
proof (cases "int (length (chat_history st)) > max_history st * 2")
  case True
  then have "nat (int (length (chat_history st)) - max_history st * 2) = length (chat_history st) - nat (2 * max_history st)"
    using assms by linarith
  with True assms show ?thesis
    by (simp add: trim_history_def py_slice_from_def last_entries_def Let_def max_def)
next
  case False
  then have "length (chat_history st) - nat (2 * max_history st) = 0" using assms by linarith
  with False show ?thesis by (simp add: trim_history_def last_entries_def)
qed

lemma last_entries_append:
  "last_entries n (last_entries n xs @ ys) = last_entries n (xs @ ys)"
  by (cases "length xs \<le> n") (auto simp: last_entries_def add.commute)

lemma run_chats_history:
  assumes "run_chats env ms st = Some (appended, st')"
    and "0 < max_history st"
    and "chat_history st = last_entries (nat (2 * max_history st)) before"
  shows "chat_history st' = last_entries (nat (2 * max_history st)) (before @ appended)
         \<and> length appended = 2 * length ms \<and> max_history st' = max_history st"
  using assms
proof (induction ms arbitrary: st appended before)
  case Nil
  then show ?case by simp
next
  case (Cons m ms)
  from Cons.prems(1) obtain a st1 rest where
    b: "chat_body env m st = Some (Inr a, st1)" and
    r: "run_chats env ms st1 = Some (rest, st')" and
    ap: "appended = (''user'', m) # (''assistant'', a) # rest"
    by (auto split: option.splits sum.splits prod.splits)
  from chat_body_success[OF b] have
    h1: "chat_history st1 = chat_history (trim_history (st\<lparr>chat_history := chat_history st @ [(''user'', m), (''assistant'', a)]\<rparr>))"
    and m1: "max_history st1 = max_history st" by simp_all
  have "chat_history st1 = last_entries (nat (2 * max_history st)) (before @ [(''user'', m), (''assistant'', a)])"
    using h1 Cons.prems(2,3) by (simp add: trim_history_positive last_entries_append)
  with Cons.IH[OF r, of "before @ [(''user'', m), (''assistant'', a)]"] m1 Cons.prems(2) ap
  show ?case by simp
qed

text \<open>
  For a positive \<open>max_history = M\<close>, after \<open>N\<close> successful calls on a fresh session the
  history is the last \<open>min (2N) (2M)\<close> appended entries, in their order.
\<close>

lemma history_bound_positive:
  assumes "run_chats env ms (init_assistant M w) = Some (appended, st')" and "0 < M"
  shows "chat_history st' = last_entries (min (2 * length ms) (nat (2 * M))) appended
         \<and> length (chat_history st') = min (2 * length ms) (nat (2 * M))
         \<and> length appended = 2 * length ms"
proof -
  have "chat_history (init_assistant M w) = last_entries (nat (2 * max_history (init_assistant M w))) []"
    by (simp add: init_assistant_def last_entries_def)
  from run_chats_history[OF assms(1) _ this] assms(2)
  have h: "chat_history st' = last_entries (nat (2 * M)) appended" and l: "length appended = 2 * length ms"
    by (simp_all add: init_assistant_def)
  show ?thesis using h l by (auto simp: last_entries_def min_def)
qed

text \<open>
  Claim C1 at \<open>max_history = 0\<close>: the claim gives \<open>min (2 * 1) (2 * 0) = 0\<close> retained
  entries after one successful call. The code keeps both entries: the history is longer
  than \<open>0\<close>, so it is replaced by the slice \<open>chat_history[-0:]\<close>, which is the whole list.
\<close>

theorem history_unbounded_at_zero:
  "run_chats sample_env [''hi''] (init_assistant 0 0) =
     Some ([(''user'', ''hi''), (''assistant'', ''hello'')],
           \<lparr>chat_history = [(''user'', ''hi''), (''assistant'', ''hello'')], max_history = 0,
            chat_session = Some [UserMessage ''hi''], tool_world = 0\<rparr>)"
proof -
  have c: "response_cycle sample_env [UserMessage ''hi''] 0 (text_response ''hello'')
             = Leave (Inr (text_response ''hello'')) [UserMessage ''hi''] 0"
    by (simp add: response_cycle_def text_response_def)
  have l: "chat_loop sample_env [UserMessage ''hi''] 0 (text_response ''hello'')
             = Some (Inr (text_response ''hello''), [UserMessage ''hi''], 0)"
    by (subst chat_loop.simps) (simp add: c)
  have s: "send_message sample_env [UserMessage ''hi''] = Inr (text_response ''hello'')"
    by (simp add: sample_env_def sample_model_def)
  have x: "extract_response_text (text_response ''hello'') = ''hello''"
    by (simp add: extract_response_text_def text_response_def)
  have "chat_body sample_env ''hi'' (init_assistant 0 0) =
     Some (Inr ''hello'', \<lparr>chat_history = [(''user'', ''hi''), (''assistant'', ''hello'')], max_history = 0,
            chat_session = Some [UserMessage ''hi''], tool_world = 0\<rparr>)"
    by (simp add: chat_body_def init_assistant_def s l x trim_history_def py_slice_from_def Let_def)
  then show ?thesis by simp
qed

section \<open>The vector store: embeddings and upsert\<close>

subsection \<open>Embeddings\<close>

lemma embed_with_fallback_result:
  "\<exists>v. embed_with_fallback env task text w = (Inr v, w\<lparr>embed_log := embed_log w @ [(text, task)]\<rparr>) \<and>
       (case embed_content env (embed_log w) text task of
          Inl e \<Rightarrow> v = replicate 768 0
        | Inr result \<Rightarrow> (case map_of result ''embedding'' of None \<Rightarrow> v = replicate 768 0 | Some u \<Rightarrow> v = u))"
  by (auto simp: embed_with_fallback_def Let_def split: sum.splits option.splits)

text \<open>
  Claim C8. The provider's model (\<open>models/embedding-001\<close>) has 768 dimensions: every
  vector it returns has that length. Then \<open>_get_embedding\<close> and \<open>_get_query_embedding\<close>
  raise nothing and return a vector of length 768 for every text, and when the provider
  call raises, the vector is all zeros.
\<close>

theorem embeddings_have_fixed_dimension:
  assumes "\<forall>log text task result v.
             embed_content env log text task = Inr result \<longrightarrow>
             map_of result ''embedding'' = Some v \<longrightarrow> length v = 768"
  shows "(\<exists>v. fst (get_embedding env text w) = Inr v \<and> length v = 768 \<and>
            ((\<exists>e. embed_content env (embed_log w) text ''retrieval_document'' = Inl e) \<longrightarrow> v = replicate 768 0)) \<and>
         (\<exists>v. fst (get_query_embedding env text w) = Inr v \<and> length v = 768 \<and>
            ((\<exists>e. embed_content env (embed_log w) text ''retrieval_query'' = Inl e) \<longrightarrow> v = replicate 768 0))"
proof -
  have main: "\<exists>v. fst (embed_with_fallback env task text w) = Inr v \<and> length v = 768 \<and>
            ((\<exists>e. embed_content env (embed_log w) text task = Inl e) \<longrightarrow> v = replicate 768 0)" for task
  proof -
    from embed_with_fallback_result[of env task "text" w] obtain v where
      r: "embed_with_fallback env task text w = (Inr v, w\<lparr>embed_log := embed_log w @ [(text, task)]\<rparr>)"
      and c: "(case embed_content env (embed_log w) text task of
          Inl e \<Rightarrow> v = replicate 768 0
        | Inr result \<Rightarrow> (case map_of result ''embedding'' of None \<Rightarrow> v = replicate 768 0 | Some u \<Rightarrow> v = u))"
      by blast
    have "length v = 768"
    proof (cases "embed_content env (embed_log w) text task")
      case (Inl e)
      with c show ?thesis by simp
    next
      case (Inr result)
      show ?thesis
      proof (cases "map_of result ''embedding''")
        case None
        with c Inr show ?thesis by simp
      next
        case (Some u)
        with c Inr have "v = u" by simp
        with assms Inr Some show ?thesis by blast
      qed
    qed
    moreover have "(\<exists>e. embed_content env (embed_log w) text task = Inl e) \<longrightarrow> v = replicate 768 0"
      using c by auto
    ultimately show ?thesis using r by auto
  qed
  show ?thesis using main[of "''retrieval_document''"] main[of "''retrieval_query''"]
    by (simp add: get_embedding_def get_query_embedding_def)
qed

theorem embeddings_have_fixed_dimension_witness:
  "fst (get_embedding sample_rag ''bad'' empty_world) = Inr (replicate 768 0) \<and>
   fst (get_query_embedding sample_rag ''bad'' empty_world) = Inr (replicate 768 0) \<and>
   (\<exists>v. fst (get_embedding sample_rag ''good'' empty_world) = Inr v \<and> length v = 768)"
proof -
  have h: "\<forall>log text task result v.
             embed_content sample_rag log text task = Inr result \<longrightarrow>
             map_of result ''embedding'' = Some v \<longrightarrow> length v = 768"
    by (auto simp: sample_rag_def split: if_splits)
  have b1: "\<exists>e. embed_content sample_rag (embed_log empty_world) ''bad'' ''retrieval_document'' = Inl e"
    by (simp add: sample_rag_def)
  have b2: "\<exists>e. embed_content sample_rag (embed_log empty_world) ''bad'' ''retrieval_query'' = Inl e"
    by (simp add: sample_rag_def)
  from embeddings_have_fixed_dimension[OF h, of "''bad''" empty_world] b1 b2
       embeddings_have_fixed_dimension[OF h, of "''good''" empty_world]
  show ?thesis by auto
qed

subsection \<open>add_documents\<close>

text \<open>
  Claim C10. With an empty list \<open>add_documents\<close> returns at once: the state is the one it
  was called in, so no embedding request has been logged, no identifier drawn and nothing
  written to the collection.
\<close>

theorem add_documents_empty_is_noop:
  "add_documents env [] w = (Inr (), w) \<and>
   embed_log (snd (add_documents env [] w)) = embed_log w \<and>
   collection (snd (add_documents env [] w)) = collection w \<and>
   uuid_count (snd (add_documents env [] w)) = uuid_count w"
  by (simp add: add_documents_def)

lemma filter_metadata_lookup:
  assumes "distinct (map fst items)"
  shows "map_of (filter_metadata items metadata) k =
           (case map_of items k of
              None \<Rightarrow> map_of metadata k
            | Some v \<Rightarrow> if is_scalar v then Some v else map_of metadata k)"
  using assms
proof (induction items arbitrary: metadata)
  case Nil
  then show ?case by simp
next
  case (Cons kv items)
  obtain key val where kv: "kv = (key, val)" by (cases kv)
  from Cons.prems kv have d: "distinct (map fst items)" and nk: "map_of items key = None"
    by (auto simp: map_of_eq_None_iff)
  show ?case
    using Cons.IH[OF d] kv nk
    by (auto simp: update_conv' split: option.splits)
qed

lemma stored_metadata_lookup:
  assumes "distinct (map fst (doc_metadata doc))"
  shows "map_of (stored_metadata doc) k =
           (if k = ''title'' then Some (doc_title doc)
            else case map_of (doc_metadata doc) k of
                   None \<Rightarrow> None
                 | Some v \<Rightarrow> if is_scalar v then Some v else None)"
  using filter_metadata_lookup[OF assms, of "[]" k]
  by (auto simp: stored_metadata_def update_conv' split: option.splits)

lemma prepare_document_result:
  "\<exists>r w'. prepare_document env doc w = (Inr r, w') \<and>
     rec_id r = uuid4 env (uuid_count w) \<and> rec_metadata r = stored_metadata doc \<and>
     rec_document r = doc_content doc \<and>
     uuid_count w' = Suc (uuid_count w) \<and> collection w' = collection w \<and>
     embed_log w' = embed_log w @ [(doc_content doc, ''retrieval_document'')]"
proof -
  from embed_with_fallback_result[of env "''retrieval_document''" "doc_content doc" "w\<lparr>uuid_count := Suc (uuid_count w)\<rparr>"]
  obtain v where "embed_with_fallback env ''retrieval_document'' (doc_content doc) (w\<lparr>uuid_count := Suc (uuid_count w)\<rparr>)
     = (Inr v, w\<lparr>uuid_count := Suc (uuid_count w)\<rparr>\<lparr>embed_log := embed_log (w\<lparr>uuid_count := Suc (uuid_count w)\<rparr>) @ [(doc_content doc, ''retrieval_document'')]\<rparr>)"
    by blast
  then show ?thesis
    by (simp add: prepare_document_def get_embedding_def Let_def stored_metadata_def)
qed

lemma prepare_documents_result:
  "\<exists>recs w'. prepare_documents env docs acc w = (Inr (acc @ recs), w') \<and>
     map rec_id recs = map (uuid4 env) [uuid_count w ..< uuid_count w + length docs] \<and>
     map rec_metadata recs = map stored_metadata docs \<and>
     map rec_document recs = map doc_content docs \<and>
     uuid_count w' = uuid_count w + length docs \<and> collection w' = collection w \<and>
     embed_log w' = embed_log w @ map (\<lambda>d. (doc_content d, ''retrieval_document'')) docs"
proof (induction docs arbitrary: acc w)
  case Nil
  then show ?case by simp
next
  case (Cons doc docs)
  from prepare_document_result[of env doc w] obtain r w1 where
    p: "prepare_document env doc w = (Inr r, w1)" and
    f: "rec_id r = uuid4 env (uuid_count w)" "rec_metadata r = stored_metadata doc"
       "rec_document r = doc_content doc" "uuid_count w1 = Suc (uuid_count w)"
       "collection w1 = collection w"
       "embed_log w1 = embed_log w @ [(doc_content doc, ''retrieval_document'')]"
    by blast
  from Cons.IH[of "acc @ [r]" w1] obtain recs w' where
    q: "prepare_documents env docs (acc @ [r]) w1 = (Inr ((acc @ [r]) @ recs), w')" and
    g: "map rec_id recs = map (uuid4 env) [uuid_count w1 ..< uuid_count w1 + length docs]"
       "map rec_metadata recs = map stored_metadata docs"
       "map rec_document recs = map doc_content docs"
       "uuid_count w' = uuid_count w1 + length docs" "collection w' = collection w1"
       "embed_log w' = embed_log w1 @ map (\<lambda>d. (doc_content d, ''retrieval_document'')) docs"
    by blast
  have "uuid_count w < uuid_count w + length (doc # docs)" by simp
  from upt_conv_Cons[OF this]
  have "[uuid_count w ..< uuid_count w + length (doc # docs)] =
          uuid_count w # [Suc (uuid_count w) ..< Suc (uuid_count w) + length docs]"
    by simp
  with p q f g show ?case
    by (intro exI[of _ "r # recs"] exI[of _ w']) simp
qed

lemma add_documents_result:
  assumes "documents \<noteq> []"
  shows "\<exists>recs w'. add_documents env documents w = (Inr (), w') \<and>
     collection w' = collection w @ recs \<and>
     map rec_id recs = map (uuid4 env) [uuid_count w ..< uuid_count w + length documents] \<and>
     map rec_metadata recs = map stored_metadata documents \<and>
     map rec_document recs = map doc_content documents \<and>
     uuid_count w' = uuid_count w + length documents \<and>
     embed_log w' = embed_log w @ map (\<lambda>d. (doc_content d, ''retrieval_document'')) documents"
proof -
  from prepare_documents_result[of env documents "[]" w] obtain recs w1 where
    "prepare_documents env documents [] w = (Inr ([] @ recs), w1)" and
    g: "map rec_id recs = map (uuid4 env) [uuid_count w ..< uuid_count w + length documents]"
       "map rec_metadata recs = map stored_metadata documents"
       "map rec_document recs = map doc_content documents"
       "uuid_count w1 = uuid_count w + length documents" "collection w1 = collection w"
       "embed_log w1 = embed_log w @ map (\<lambda>d. (doc_content d, ''retrieval_document'')) documents"
    by blast
  with assms show ?thesis
    by (intro exI[of _ recs] exI[of _ "w1\<lparr>collection := collection_add recs (collection w1)\<rparr>"])
       (simp add: add_documents_def collection_add_def)
qed

text \<open>
  Claim C7, as stated, fails: the document's metadata holds the scalar entry
  \<open>title = A\<close>, and the stored metadata holds \<open>title = B\<close>, the document's own title.
\<close>

theorem title_entry_not_retained:
  "is_scalar (PStr ''A'') \<and>
   map rec_metadata (collection (snd (add_documents sample_rag
      [\<lparr>doc_content = ''text'', doc_title = PStr ''B'',
        doc_metadata = [(''title'', PStr ''A''), (''page_number'', PInt 3)]\<rparr>] empty_world)))
     = [[(''title'', PStr ''B''), (''page_number'', PInt 3)]]"
  by (simp add: add_documents_def prepare_document_def get_embedding_def embed_with_fallback_def
        sample_rag_def empty_world_def collection_add_def Let_def)

text \<open>
  Claim C7, amended. The titles of the documents are scalar-typed. Each record of a
  non-empty list gets the next identifier drawn from \<open>uuid4\<close> (so the identifiers are
  distinct, and differ from those already in the index, as far as \<open>uuid4\<close> does not
  repeat itself). Its stored metadata maps \<open>title\<close> to the document's title, whatever the
  metadata held under that key, and every other key to the value the document's metadata
  gives it if that value is a string, an integer, a float or a boolean; keys with other
  values are absent, so every stored value is scalar-typed.
\<close>

theorem add_documents_ids_and_metadata:
  assumes "documents \<noteq> []"
    and "\<forall>doc\<in>set documents. distinct (map fst (doc_metadata doc))"
    and "\<forall>doc\<in>set documents. is_scalar (doc_title doc)"
  shows "\<exists>recs w'.
           add_documents env documents w = (Inr (), w') \<and>
           collection w' = collection w @ recs \<and>
           length recs = length documents \<and>
           uuid_count w' = uuid_count w + length documents \<and>
           (\<forall>i<length documents.
              rec_id (recs ! i) = uuid4 env (uuid_count w + i) \<and>
              rec_document (recs ! i) = doc_content (documents ! i) \<and>
              (\<forall>k. map_of (rec_metadata (recs ! i)) k =
                     (if k = ''title'' then Some (doc_title (documents ! i))
                      else case map_of (doc_metadata (documents ! i)) k of
                             None \<Rightarrow> None
                           | Some v \<Rightarrow> if is_scalar v then Some v else None)) \<and>
              (\<forall>k v. map_of (rec_metadata (recs ! i)) k = Some v \<longrightarrow> is_scalar v)) \<and>
           (inj (uuid4 env) \<longrightarrow> distinct (map rec_id recs)) \<and>
           (inj (uuid4 env) \<and> (\<forall>r\<in>set (collection w). \<exists>j<uuid_count w. rec_id r = uuid4 env j)
              \<longrightarrow> (\<forall>r\<in>set recs. rec_id r \<notin> rec_id ` set (collection w)) \<and>
                  (\<forall>r\<in>set (collection w'). \<exists>j<uuid_count w'. rec_id r = uuid4 env j))"
proof -
  from add_documents_result[OF assms(1), of env w] obtain recs w' where
    a: "add_documents env documents w = (Inr (), w')" and
    c: "collection w' = collection w @ recs" and
    ids: "map rec_id recs = map (uuid4 env) [uuid_count w ..< uuid_count w + length documents]" and
    md: "map rec_metadata recs = map stored_metadata documents" and
    dc: "map rec_document recs = map doc_content documents" and
    u: "uuid_count w' = uuid_count w + length documents"
    by blast
  from md have len: "length recs = length documents" by (metis length_map)
  have per: "rec_id (recs ! i) = uuid4 env (uuid_count w + i) \<and>
             rec_document (recs ! i) = doc_content (documents ! i) \<and>
             (\<forall>k. map_of (rec_metadata (recs ! i)) k =
                     (if k = ''title'' then Some (doc_title (documents ! i))
                      else case map_of (doc_metadata (documents ! i)) k of
                             None \<Rightarrow> None
                           | Some v \<Rightarrow> if is_scalar v then Some v else None)) \<and>
             (\<forall>k v. map_of (rec_metadata (recs ! i)) k = Some v \<longrightarrow> is_scalar v)"
    if i: "i < length documents" for i
  proof -
    have "rec_id (recs ! i) = map rec_id recs ! i" using i len by simp
    also have "\<dots> = uuid4 env (uuid_count w + i)" using i by (simp add: ids)
    finally have 1: "rec_id (recs ! i) = uuid4 env (uuid_count w + i)" .
    have "rec_document (recs ! i) = map rec_document recs ! i" using i len by simp
    then have 2: "rec_document (recs ! i) = doc_content (documents ! i)" using i by (simp add: dc)
    have "rec_metadata (recs ! i) = map rec_metadata recs ! i" using i len by simp
    then have 3: "rec_metadata (recs ! i) = stored_metadata (documents ! i)" using i by (simp add: md)
    have "distinct (map fst (doc_metadata (documents ! i)))" using assms(2) i by simp
    note look = stored_metadata_lookup[OF this]
    have t: "is_scalar (doc_title (documents ! i))" using assms(3) i by simp
    have 4: "is_scalar v" if "map_of (rec_metadata (recs ! i)) k = Some v" for k v
      using that t unfolding 3 look by (auto split: if_splits option.splits)
    from look 1 2 3 4 show ?thesis by simp
  qed
  have dist: "distinct (map rec_id recs)" if "inj (uuid4 env)"
    using that by (simp add: ids distinct_map inj_on_def inj_def)
  have fresh: "(\<forall>r\<in>set recs. rec_id r \<notin> rec_id ` set (collection w)) \<and>
               (\<forall>r\<in>set (collection w'). \<exists>j<uuid_count w'. rec_id r = uuid4 env j)"
    if inj: "inj (uuid4 env)" and old: "\<forall>r\<in>set (collection w). \<exists>j<uuid_count w. rec_id r = uuid4 env j"
  proof -
    have new: "\<exists>j. uuid_count w \<le> j \<and> j < uuid_count w + length documents \<and> rec_id r = uuid4 env j"
      if "r \<in> set recs" for r
    proof -
      from that have "rec_id r \<in> set (map rec_id recs)" by simp
      then show ?thesis unfolding ids by auto
    qed
    have "rec_id r \<notin> rec_id ` set (collection w)" if "r \<in> set recs" for r
    proof
      assume "rec_id r \<in> rec_id ` set (collection w)"
      then obtain r0 where r0: "r0 \<in> set (collection w)" "rec_id r = rec_id r0" by auto
      from old r0 obtain j0 where j0: "j0 < uuid_count w" "rec_id r0 = uuid4 env j0" by auto
      from new[OF that] obtain j where j: "uuid_count w \<le> j" "rec_id r = uuid4 env j" by auto
      from inj r0(2) j0(2) j(2) have "j = j0" by (simp add: inj_def)
      with j0(1) j(1) show False by simp
    qed
    moreover have "\<exists>j<uuid_count w'. rec_id r = uuid4 env j" if "r \<in> set (collection w')" for r
    proof -
      from that c have "r \<in> set (collection w) \<or> r \<in> set recs" by auto
      then show ?thesis
      proof
        assume "r \<in> set (collection w)"
        with old obtain j where "j < uuid_count w" "rec_id r = uuid4 env j" by auto
        then show ?thesis using u by (intro exI[of _ j]) simp
      next
        assume "r \<in> set recs"
        from new[OF this] show ?thesis using u by auto
      qed
    qed
    ultimately show ?thesis by blast
  qed
  show ?thesis
    using a c len u per dist fresh by (intro exI[of _ recs] exI[of _ w']) blast
qed

lemma inj_sample_uuid4: "inj (uuid4 sample_rag)"
proof (rule injI)
  fix a b assume "uuid4 sample_rag a = uuid4 sample_rag b"
  then have "length (replicate (Suc a) (CHR ''u'')) = length (replicate (Suc b) (CHR ''u''))"
    by (simp add: sample_rag_def)
  then show "a = b" by simp
qed

theorem add_documents_ids_and_metadata_witness:
  "\<exists>recs w'.
     add_documents sample_rag [sample_doc] old_world = (Inr (), w') \<and>
     collection w' = collection old_world @ recs \<and>
     length recs = 1 \<and>
     rec_id (recs ! 0) = ''uu'' \<and>
     map_of (rec_metadata (recs ! 0)) ''title'' = Some (PStr ''B'') \<and>
     map_of (rec_metadata (recs ! 0)) ''page_number'' = Some (PInt 3) \<and>
     map_of (rec_metadata (recs ! 0)) ''tags'' = None \<and>
     distinct (map rec_id recs) \<and>
     (\<forall>r\<in>set recs. rec_id r \<notin> rec_id ` set (collection old_world))"
proof -
  have 1: "[sample_doc] \<noteq> []" by simp
  have 2: "\<forall>doc\<in>set [sample_doc]. distinct (map fst (doc_metadata doc))"
    by (simp add: sample_doc_def)
  have old: "\<forall>r\<in>set (collection old_world). \<exists>j<uuid_count old_world. rec_id r = uuid4 sample_rag j"
    by (simp add: old_world_def sample_rag_def)
  have 3: "\<forall>doc\<in>set [sample_doc]. is_scalar (doc_title doc)"
    by (simp add: sample_doc_def)
  from add_documents_ids_and_metadata[OF 1 2 3, of sample_rag old_world] obtain recs w' where
    a: "add_documents sample_rag [sample_doc] old_world = (Inr (), w')" and
    c: "collection w' = collection old_world @ recs" and
    l: "length recs = length [sample_doc]" and
    p: "\<forall>i<length [sample_doc].
              rec_id (recs ! i) = uuid4 sample_rag (uuid_count old_world + i) \<and>
              rec_document (recs ! i) = doc_content ([sample_doc] ! i) \<and>
              (\<forall>k. map_of (rec_metadata (recs ! i)) k =
                     (if k = ''title'' then Some (doc_title ([sample_doc] ! i))
                      else case map_of (doc_metadata ([sample_doc] ! i)) k of
                             None \<Rightarrow> None
                           | Some v \<Rightarrow> if is_scalar v then Some v else None)) \<and>
              (\<forall>k v. map_of (rec_metadata (recs ! i)) k = Some v \<longrightarrow> is_scalar v)" and
    d: "inj (uuid4 sample_rag) \<longrightarrow> distinct (map rec_id recs)" and
    f: "inj (uuid4 sample_rag) \<and> (\<forall>r\<in>set (collection old_world). \<exists>j<uuid_count old_world. rec_id r = uuid4 sample_rag j)
              \<longrightarrow> (\<forall>r\<in>set recs. rec_id r \<notin> rec_id ` set (collection old_world)) \<and>
                  (\<forall>r\<in>set (collection w'). \<exists>j<uuid_count w'. rec_id r = uuid4 sample_rag j)"
    by blast
  from p have p0: "rec_id (recs ! 0) = uuid4 sample_rag (uuid_count old_world + 0)"
    and pk: "\<And>k. map_of (rec_metadata (recs ! 0)) k =
                     (if k = ''title'' then Some (doc_title ([sample_doc] ! 0))
                      else case map_of (doc_metadata ([sample_doc] ! 0)) k of
                             None \<Rightarrow> None
                           | Some v \<Rightarrow> if is_scalar v then Some v else None)"
    by simp_all
  have i: "rec_id (recs ! 0) = ''uu''" using p0 by (simp add: sample_rag_def old_world_def)
  have t: "map_of (rec_metadata (recs ! 0)) ''title'' = Some (PStr ''B'')"
    by (simp add: pk sample_doc_def)
  have g: "map_of (rec_metadata (recs ! 0)) ''page_number'' = Some (PInt 3)"
    by (simp add: pk sample_doc_def)
  have h: "map_of (rec_metadata (recs ! 0)) ''tags'' = None"
    by (simp add: pk sample_doc_def)
  from a c l i t g h d f inj_sample_uuid4 old show ?thesis
    by (intro exI[of _ recs] exI[of _ w']) simp
qed

section \<open>The vector store: lookup and search\<close>

subsection \<open>get_full_context\<close>






subsection \<open>search and the retrieval tool\<close>

lemma collection_query_empty: "collection_query metric q k [] = []"
  by (simp add: collection_query_def)

lemma search_result:
  "\<exists>v. search env query top_k w =
         (Inr (map format_hit (collection_query (distance env) v top_k (collection w))),
          w\<lparr>embed_log := embed_log w @ [(query, ''retrieval_query'')]\<rparr>)"
proof -
  from embed_with_fallback_result[of env "''retrieval_query''" query w] obtain v where
    "embed_with_fallback env ''retrieval_query'' query w =
       (Inr v, w\<lparr>embed_log := embed_log w @ [(query, ''retrieval_query'')]\<rparr>)" by blast
  then show ?thesis
    by (intro exI[of _ v]) (simp add: search_def get_query_embedding_def Let_def)
qed

lemma search_empty_collection:
  assumes "collection w = []"
  shows "fst (search env query top_k w) = Inr []"
  using search_result[of env query top_k w] assms by (auto simp: collection_query_empty)

lemma NO_INFO_nonempty: "NO_INFO \<noteq> []"
  by (simp add: NO_INFO_def)

text \<open>
  Claim C2. When the remote call fails in a way the function recovers from (a status
  other than 200, or an exception of the class \<open>RequestException\<close>, a timeout included),
  \<open>search_knowledge_base\<close> returns what \<open>_search_local_knowledge_base\<close> returns for the
  same query in the same state: the same string, and the same state after it. Both use
  \<open>top_k = 3\<close>.
\<close>

theorem fallback_equals_local_search:
  assumes "remote_failed env query"
  shows "search_knowledge_base env query w = search_local_knowledge_base env query w"
  using assms
  by (auto simp: remote_failed_def search_knowledge_base_def search_except_def split: sum.splits)

theorem fallback_equals_local_search_witness:
  "remote_failed failing_remote ''down'' \<and>
   search_knowledge_base failing_remote ''down'' old_world = search_local_knowledge_base failing_remote ''down'' old_world \<and>
   remote_failed failing_remote ''refund policy'' \<and>
   search_knowledge_base failing_remote ''refund policy'' old_world
     = search_local_knowledge_base failing_remote ''refund policy'' old_world"
proof -
  have 1: "remote_failed failing_remote ''down''"
    by (simp add: remote_failed_def failing_remote_def)
  have 2: "remote_failed failing_remote ''refund policy''"
    by (simp add: remote_failed_def failing_remote_def)
  from fallback_equals_local_search[OF 1, of old_world] fallback_equals_local_search[OF 2, of old_world] 1 2
  show ?thesis by simp
qed

text \<open>
  Claim C5. A search in an empty collection, or in one that has just been reset, returns
  the empty list and raises nothing. When the remote call succeeds with no results, or
  fails and the local search returns no results, \<open>search_knowledge_base\<close> returns the
  fixed message, which is not the empty string.
\<close>

theorem empty_index_and_no_results:
  "fst (search renv q top_k (store\<lparr>collection := []\<rparr>)) = Inr [] \<and>
   fst (search renv q top_k (reset_collection store)) = Inr [] \<and>
   NO_INFO \<noteq> [] \<and>
   (remote_no_results env query \<or> (remote_failed env query \<and> local_no_results env query w)
      \<longrightarrow> fst (search_knowledge_base env query w) = NO_INFO)"
proof -
  have a: "fst (search renv q top_k (store\<lparr>collection := []\<rparr>)) = Inr []"
    by (rule search_empty_collection) simp
  have b: "fst (search renv q top_k (reset_collection store)) = Inr []"
    by (rule search_empty_collection) (simp add: reset_collection_def)
  have c: "fst (search_knowledge_base env query w) = NO_INFO" if "remote_no_results env query"
    using that
    by (auto simp: remote_no_results_def search_knowledge_base_def split: sum.splits)
  have d: "fst (search_knowledge_base env query w) = NO_INFO"
    if f: "remote_failed env query" and l: "local_no_results env query w"
  proof -
    have "fst (search_local_knowledge_base env query w) = NO_INFO"
      using l by (auto simp: local_no_results_def search_local_knowledge_base_def split: prod.splits sum.splits)
    moreover have "search_knowledge_base env query w = search_local_knowledge_base env query w"
      using f by (auto simp: remote_failed_def search_knowledge_base_def search_except_def split: sum.splits)
    ultimately show ?thesis by simp
  qed
  show ?thesis using a b c d NO_INFO_nonempty by blast
qed

theorem empty_index_and_no_results_witness:
  "fst (search_knowledge_base failing_remote ''down'' empty_world) = NO_INFO \<and>
   fst (search_knowledge_base failing_remote ''empty'' old_world) = NO_INFO \<and>
   fst (search sample_rag ''anything'' 5 (reset_collection old_world)) = Inr []"
proof -
  have s: "fst (search (rag failing_remote) ''down'' 3 empty_world) = Inr []"
    by (rule search_empty_collection) (simp add: empty_world_def)
  have 1: "remote_no_results failing_remote ''down'' \<or>
           (remote_failed failing_remote ''down'' \<and> local_no_results failing_remote ''down'' empty_world)"
    using s by (simp add: remote_failed_def local_no_results_def failing_remote_def)
  have 2: "remote_no_results failing_remote ''empty'' \<or>
           (remote_failed failing_remote ''empty'' \<and> local_no_results failing_remote ''empty'' old_world)"
    by (simp add: remote_no_results_def failing_remote_def API_URL_def dict_get_def)
  from empty_index_and_no_results[of sample_rag "''anything''" 5 old_world failing_remote "''down''" empty_world]
       empty_index_and_no_results[of sample_rag "''anything''" 5 old_world failing_remote "''empty''" old_world]
       1 2
  show ?thesis by blast
qed

end
